theory Spec2Isabelle
  imports Main "HOL-Library.Word"
begin

section \<open>The character device of chardev.c\<close>

text \<open>
  The module keeps one message in the static array \<open>g_message\<close> (1024 bytes), its size in
  \<open>g_message_size\<close>, a counter \<open>g_number_open\<close> and the mutex \<open>mutex_chardev\<close>. The four
  file operations \<open>chardev_open\<close>, \<open>chardev_release\<close>, \<open>chardev_read\<close> and
  \<open>chardev_write\<close> are embedded below as functions on a record of these globals.

  Integer types are those of a 64-bit Linux kernel (LP64): \<open>size_t\<close> is an unsigned and
  \<open>ssize_t\<close> a signed 64-bit integer, \<open>loff_t\<close> is \<open>long long\<close>. All three are
  \<open>64 word\<close>; \<open>unat\<close>/\<open>uint\<close> read a word as unsigned and \<open>sint\<close> as two's complement.
  Where C compares an \<open>ssize_t\<close> with a \<open>size_t\<close> the usual arithmetic conversions make
  the comparison unsigned, which is \<open><\<close> on words; a comparison of an \<open>ssize_t\<close> with the
  constant \<open>0\<close> is signed, which is \<open><s\<close>.
\<close>

type_synonym byte = "8 word"
type_synonym size_t = "64 word"
type_synonym ssize_t = "64 word"
type_synonym loff_t = "64 word"

text \<open>The error codes the callbacks return (as \<open>-EBUSY\<close>, \<open>-EINVAL\<close>, \<open>-EFAULT\<close>, \<open>-EFBIG\<close>).\<close>

datatype errno = EBUSY | EINVAL | EFAULT | EFBIG

text \<open>The module's globals. \<open>mutex_chardev\<close> is \<open>True\<close> while the mutex is locked.\<close>

record chardev =
  g_message :: "byte list"
  g_message_size :: size_t
  g_number_open :: size_t
  mutex_chardev :: bool

text \<open>\<open>sizeof(g_message)\<close>, a \<open>size_t\<close>.\<close>

definition sizeof_g_message :: size_t where
  "sizeof_g_message = 1024"

text \<open>The globals as the static initialisers leave them when the module is loaded.\<close>

definition chardev_initial :: chardev where
  "chardev_initial =
     \<lparr>g_message = replicate 1024 0, g_message_size = 0, g_number_open = 0,
      mutex_chardev = False\<rparr>"

subsection \<open>Kernel memory and the user copies\<close>

text \<open>
  \<open>g_message + off\<close> with a count \<open>n\<close> names the bytes \<open>off ..< off + n\<close> of the array.
  \<open>in_g_message\<close> says that they all lie inside the array.

  A store outside the array would overwrite other kernel data, with an effect the model
  cannot describe: \<open>store_g_message\<close> is \<open>None\<close> there, and so is a write that makes such a
  store. A load outside the array returns whatever the kernel keeps at that address.
  \<open>beyond\<close> gives these bytes, by their index relative to \<open>g_message\<close>; it is a parameter of
  every read, so that nothing proved depends on what they are.
\<close>

definition in_g_message :: "int \<Rightarrow> nat \<Rightarrow> bool" where
  "in_g_message off n \<longleftrightarrow> 0 \<le> off \<and> off + int n \<le> int (unat sizeof_g_message)"

definition store_g_message :: "byte list \<Rightarrow> int \<Rightarrow> byte list \<Rightarrow> byte list option" where
  "store_g_message m off bs =
     (if in_g_message off (length bs)
      then Some (take (nat off) m @ bs @ drop (nat off + length bs) m)
      else None)"

definition kernel_byte :: "byte list \<Rightarrow> (int \<Rightarrow> byte) \<Rightarrow> int \<Rightarrow> byte" where
  "kernel_byte m beyond i = (if 0 \<le> i \<and> i < int (length m) then m ! nat i else beyond i)"

definition load_kernel :: "byte list \<Rightarrow> (int \<Rightarrow> byte) \<Rightarrow> int \<Rightarrow> nat \<Rightarrow> byte list" where
  "load_kernel m beyond off k = map (\<lambda>j. kernel_byte m beyond (off + int j)) [0..<k]"

text \<open>
  Modelled from the spec: \<open>copy_to_user\<close> and \<open>copy_from_user\<close> are the kernel's functions
  (declared in \<open>asm/uaccess.h\<close>), absent from the module's source. The spec calls them the
  copy step, which either succeeds or fails as a whole for the caller. Both return the number
  of bytes that could not be copied, 0 on success.

  The user side of a read is \<open>u_room\<close>, the number of bytes writable at \<open>u_buffer\<close>.
  \<open>copy_to_user u_room m beyond off n\<close> copies byte after byte from \<open>g_message + off\<close> and
  stops at the first byte it cannot store: it loads and stores \<open>min n u_room\<close> bytes and
  returns the count of the others. The user side of a write is the list of bytes readable at
  \<open>u_buffer\<close>: \<open>copy_from_user u_buffer n\<close> yields the \<open>n\<close> bytes the kernel destination
  receives (what could be read, then zero bytes, as the kernel pads the destination) and the
  count not copied.
\<close>

definition copy_to_user ::
  "nat \<Rightarrow> byte list \<Rightarrow> (int \<Rightarrow> byte) \<Rightarrow> int \<Rightarrow> nat \<Rightarrow> byte list \<times> nat" where
  "copy_to_user u_room m beyond off n =
     (let k = min n u_room in (load_kernel m beyond off k, n - k))"

definition copy_from_user :: "byte list \<Rightarrow> nat \<Rightarrow> byte list \<times> nat" where
  "copy_from_user u_buffer n =
     (take n u_buffer @ replicate (n - length u_buffer) 0, n - length u_buffer)"

subsection \<open>open and release\<close>

text \<open>
  \<open>chardev_open\<close>: \<open>mutex_trylock\<close> fails when the mutex is held and the callback returns
  \<open>-EBUSY\<close>; otherwise the mutex is taken, \<open>g_number_open\<close> is incremented and 0 returned.
\<close>

definition chardev_open :: "chardev \<Rightarrow> chardev \<times> (errno + int)" where
  "chardev_open dev =
     (if mutex_chardev dev then (dev, Inl EBUSY)
      else (dev\<lparr>mutex_chardev := True, g_number_open := g_number_open dev + 1\<rparr>, Inr 0))"

text \<open>\<open>chardev_release\<close>: decrements \<open>g_number_open\<close>, unlocks the mutex, returns 0.\<close>

definition chardev_release :: "chardev \<Rightarrow> chardev \<times> (errno + int)" where
  "chardev_release dev =
     (dev\<lparr>g_number_open := g_number_open dev - 1, mutex_chardev := False\<rparr>, Inr 0)"

subsection \<open>read\<close>

text \<open>
  The result of a read: the globals, \<open>*offset\<close>, the bytes stored at \<open>u_buffer\<close> and the
  return value (\<open>Inl e\<close> for \<open>-e\<close>, \<open>Inr n\<close> for a count).

  \<open>chardev_read_copy\<close> is the second half of \<open>chardev_read\<close> (from the call of
  \<open>copy_to_user\<close> on), run with the final value of \<open>len_msg\<close>, which the call converts to
  the unsigned count. \<open>err\<close> is an \<open>int\<close>: the assignment keeps the low 32 bits of the
  \<open>unsigned long\<close> that \<open>copy_to_user\<close> returns, which \<open>of_nat\<close> into \<open>32 word\<close> does.
\<close>

type_synonym read_result = "chardev \<times> loff_t \<times> byte list \<times> (errno + ssize_t)"

definition chardev_read_copy ::
  "chardev \<Rightarrow> (int \<Rightarrow> byte) \<Rightarrow> nat \<Rightarrow> ssize_t \<Rightarrow> loff_t \<Rightarrow> read_result" where
  "chardev_read_copy dev beyond u_room len_msg offset =
     (case copy_to_user u_room (g_message dev) beyond (sint offset) (unat len_msg) of
        (stored, not_copied) \<Rightarrow>
          let err = (of_nat not_copied :: 32 word) in
          if err = 0 then (dev, offset + len_msg, stored, Inr len_msg)
          else (dev, offset, stored, Inl EFAULT))"

definition chardev_read ::
  "chardev \<Rightarrow> (int \<Rightarrow> byte) \<Rightarrow> nat \<Rightarrow> size_t \<Rightarrow> loff_t \<Rightarrow> read_result" where
  "chardev_read dev beyond u_room len offset =
     (let len_msg = g_message_size dev - offset in
      if len_msg = 0 then (dev, offset, [], Inr 0)
      else if len < len_msg then chardev_read_copy dev beyond u_room len offset
      else if len_msg <s 0 then (dev, offset, [], Inl EINVAL)
      else chardev_read_copy dev beyond u_room len_msg offset)"

text \<open>
  The count with which \<open>chardev_read\<close> calls \<open>copy_to_user\<close>, by the same tests; \<open>None\<close>
  when the read returns before the copy (at the end of the content, or with \<open>-EINVAL\<close>).
\<close>

definition copy_count :: "chardev \<Rightarrow> size_t \<Rightarrow> loff_t \<Rightarrow> ssize_t option" where
  "copy_count dev len offset =
     (let len_msg = g_message_size dev - offset in
      if len_msg = 0 then None
      else if len < len_msg then Some len
      else if len_msg <s 0 then None
      else Some len_msg)"

subsection \<open>write\<close>

text \<open>
  The result of a write: the globals, \<open>*offset\<close> and the return value. \<open>u_buffer\<close> is the
  list of bytes readable at the user pointer, \<open>len\<close> the count asked for.
\<close>

type_synonym write_result = "chardev \<times> loff_t \<times> (errno + ssize_t)"

definition chardev_write :: "chardev \<Rightarrow> byte list \<Rightarrow> size_t \<Rightarrow> loff_t \<Rightarrow> write_result option" where
  "chardev_write dev u_buffer len offset =
     (let len_msg = len + offset in
      if sizeof_g_message < len_msg then Some (dev, offset, Inl EFBIG)
      else
        (case copy_from_user u_buffer (unat len) of
           (bytes, not_copied) \<Rightarrow>
             (case store_g_message (g_message dev) (sint offset) bytes of
                None \<Rightarrow> None
              | Some m \<Rightarrow>
                  let dev1 = dev\<lparr>g_message := m\<rparr> in
                  if not_copied \<noteq> 0 then Some (dev1\<lparr>g_message_size := 0\<rparr>, offset, Inl EFAULT)
                  else
                    let dev2 = (if offset = 0 then dev1\<lparr>g_message_size := 0\<rparr> else dev1);
                        dev3 = dev2\<lparr>g_message_size := g_message_size dev2 + len\<rparr>
                    in Some (dev3, offset + len, Inr len))))"

subsection \<open>The file operations table and example states\<close>

text \<open>
  \<open>fops\<close> registers the four callbacks; a \<open>call\<close> is one invocation by the kernel, with the
  user side of the copy and the arguments \<open>len\<close> and \<open>*offset\<close>. \<open>chardev_call\<close> gives the
  globals after one call and \<open>chardev_calls\<close> after a sequence of them (\<open>None\<close> once a
  write has stored outside \<open>g_message\<close>). A read comes with the kernel memory around the array.
\<close>

datatype call =
    Open
  | Release
  | Read "int \<Rightarrow> byte" nat size_t loff_t
  | Write "byte list" size_t loff_t

primrec chardev_call :: "chardev \<Rightarrow> call \<Rightarrow> chardev option" where
  "chardev_call dev Open = Some (fst (chardev_open dev))"
| "chardev_call dev Release = Some (fst (chardev_release dev))"
| "chardev_call dev (Read beyond u_room len offset) =
     Some (fst (chardev_read dev beyond u_room len offset))"
| "chardev_call dev (Write u_buffer len offset) =
     map_option fst (chardev_write dev u_buffer len offset)"

primrec chardev_calls :: "chardev \<Rightarrow> call list \<Rightarrow> chardev option" where
  "chardev_calls dev [] = Some dev"
| "chardev_calls dev (c # cs) =
     (case chardev_call dev c of None \<Rightarrow> None | Some dev' \<Rightarrow> chardev_calls dev' cs)"

text \<open>The bytes \<open>g_message_size\<close> declares valid: the stored message.\<close>

definition content :: "chardev \<Rightarrow> byte list" where
  "content dev = take (unat (g_message_size dev)) (g_message dev)"

text \<open>An open device holding the five bytes of \<open>HELLO\<close>.\<close>

definition dev_hello :: chardev where
  "dev_hello =
     \<lparr>g_message = [72, 69, 76, 76, 79] @ replicate 1019 0, g_message_size = 5,
      g_number_open = 1, mutex_chardev = True\<rparr>"

text \<open>An open device holding the ten digits \<open>0123456789\<close>.\<close>

definition dev_digits :: chardev where
  "dev_digits =
     \<lparr>g_message = [48, 49, 50, 51, 52, 53, 54, 55, 56, 57] @ replicate 1014 0,
      g_message_size = 10, g_number_open = 1, mutex_chardev = True\<rparr>"

text \<open>An open device holding the two bytes \<open>AB\<close>.\<close>

definition dev_ab :: chardev where
  "dev_ab =
     \<lparr>g_message = [65, 66] @ replicate 1022 0, g_message_size = 2,
      g_number_open = 1, mutex_chardev = True\<rparr>"

text \<open>
  The device after 1000 bytes \<open>A\<close> written at offset 0 and 1000 bytes \<open>B\<close> written at offset 1.
\<close>

definition dev_over :: chardev where
  "dev_over =
     \<lparr>g_message = [65] @ replicate 1000 66 @ replicate 23 0, g_message_size = 2000,
      g_number_open = 1, mutex_chardev = True\<rparr>"

subsection \<open>The calling protocol\<close>

text \<open>
  The kernel calls \<open>release\<close> once for each successful \<open>open\<close>, so only while the mutex is
  held. \<open>paired dev cs\<close> says that the sequence \<open>cs\<close>, run from \<open>dev\<close>, keeps to that.
  \<open>counts_holder dev\<close> says that \<open>g_number_open\<close> is the number of sessions that hold the
  device: 1 while the mutex is held, 0 otherwise.
\<close>

primrec paired :: "chardev \<Rightarrow> call list \<Rightarrow> bool" where
  "paired dev [] = True"
| "paired dev (c # cs) =
     ((case c of Release \<Rightarrow> mutex_chardev dev | _ \<Rightarrow> True) \<and>
      (case chardev_call dev c of None \<Rightarrow> True | Some dev' \<Rightarrow> paired dev' cs))"

definition counts_holder :: "chardev \<Rightarrow> bool" where
  "counts_holder dev \<longleftrightarrow> g_number_open dev = (if mutex_chardev dev then 1 else 0)"

section \<open>Arithmetic of 64-bit words\<close>

text \<open>The unsigned and the signed reading of a 64-bit word, and sums and differences.\<close>

lemma uint_64_less: "uint (x :: 64 word) < 2 ^ 64"
  using uint_bounded [of x] by simp

lemma uint_sint_64:
  "uint (x :: 64 word) = (if 0 \<le> sint x then sint x else sint x + 2 ^ 64)"
proof -
  have lo: "- (2 ^ 63) \<le> sint x" using sint_ge [of x] by simp
  have hi: "sint x < 2 ^ 63" using sint_lt [of x] by simp
  have u: "uint x = sint x mod 2 ^ 64"
    using uint_sint [of x] by (simp add: take_bit_eq_mod)
  show ?thesis
  proof (cases "0 \<le> sint x")
    case True
    with hi have "sint x mod 2 ^ 64 = sint x" by (intro mod_pos_pos_trivial) simp_all
    with u True show ?thesis by simp
  next
    case False
    with lo have "(sint x + 2 ^ 64) mod 2 ^ 64 = sint x + 2 ^ 64"
      by (intro mod_pos_pos_trivial) simp_all
    then have "sint x mod 2 ^ 64 = sint x + 2 ^ 64" by simp
    with u False show ?thesis by simp
  qed
qed

lemma sint_64: "sint (x :: 64 word) = (if uint x < 2 ^ 63 then uint x else uint x - 2 ^ 64)"
  using uint_sint_64 [of x] sint_ge [of x] sint_lt [of x] by (simp split: if_splits)

lemma uint_add_64:
  "uint ((a :: 64 word) + b) =
     (if uint a + uint b < 2 ^ 64 then uint a + uint b else uint a + uint b - 2 ^ 64)"
  using uint_plus_if' [of a b] by simp

lemma uint_sub_64:
  "uint ((a :: 64 word) - b) =
     (if uint b \<le> uint a then uint a - uint b else uint a - uint b + 2 ^ 64)"
  using uint_sub_if' [of a b] by simp

lemma sless_zero_iff: "(x :: 64 word) <s 0 \<longleftrightarrow> 2 ^ 63 \<le> uint x"
  using uint_64_less [of x] by (simp add: word_sless_alt sint_64)

lemma available_uint:
  fixes size offset :: "64 word"
  assumes "0 \<le> sint offset" and "sint offset \<le> uint size"
  shows "uint (size - offset) = uint size - sint offset"
proof -
  from assms(1) have "sint offset = uint offset"
    using sint_64 [of offset] uint_64_less [of offset] by (simp split: if_splits)
  with assms(2) show ?thesis by (simp add: uint_sub_64)
qed

lemma sizeof_less_iff: "sizeof_g_message < (x :: 64 word) \<longleftrightarrow> 1024 < uint x"
  by (simp add: sizeof_g_message_def word_less_alt)

text \<open>
  The capacity check of \<open>chardev_write\<close> compares \<open>len + *offset\<close>, computed in 64 bits,
  with 1024 as unsigned numbers. For a count below \<open>2 ^ 63\<close> the sum cannot wrap past a
  value above 1024, whatever the sign of the offset.
\<close>

lemma capacity_check_fails:
  fixes len offset :: "64 word"
  assumes "uint len < 2 ^ 63" and "1024 < sint offset + uint len"
  shows "sizeof_g_message < len + offset"
proof -
  have "1024 < uint (len + offset)"
  proof (cases "uint offset < 2 ^ 63")
    case True
    with assms have "uint len + uint offset < 2 ^ 64" "1024 < uint len + uint offset"
      by (simp_all add: sint_64)
    then show ?thesis by (simp add: uint_add_64)
  next
    case False
    with assms uint_64_less [of offset]
    have "\<not> uint len + uint offset < 2 ^ 64" "1024 < uint len + uint offset - 2 ^ 64"
      by (simp_all add: sint_64)
    then show ?thesis by (simp add: uint_add_64)
  qed
  then show ?thesis by (simp add: sizeof_less_iff)
qed

lemma capacity_check_passes:
  fixes len offset :: "64 word"
  assumes "0 \<le> sint offset" and "sint offset + uint len \<le> 1024"
  shows "\<not> sizeof_g_message < len + offset"
proof -
  from assms(1) have small: "uint offset < 2 ^ 63" "sint offset = uint offset"
    using sint_64 [of offset] uint_64_less [of offset] by (simp_all split: if_splits)
  with assms(2) have "uint len + uint offset < 2 ^ 64" "uint len + uint offset \<le> 1024"
    by simp_all
  then have "uint (len + offset) \<le> 1024" by (simp add: uint_add_64)
  then show ?thesis by (simp add: sizeof_less_iff)
qed

section \<open>Reads\<close>

text \<open>
  The copy step of a read. \<open>err\<close> keeps the low 32 bits of the count not copied; for a
  count below \<open>2 ^ 32\<close> it is 0 only when everything was copied.
\<close>

lemma err_zero_iff:
  assumes "k < 2 ^ 32"
  shows "(of_nat k :: 32 word) = 0 \<longleftrightarrow> k = 0"
proof
  assume "(of_nat k :: 32 word) = 0"
  then have "2 ^ 32 dvd k" by (simp add: word_of_nat_eq_0_iff)
  then show "k = 0" using assms by (auto dest: dvd_imp_le)
qed simp

lemma unat_less_32:
  assumes "uint (n :: 64 word) < 2 ^ 32"
  shows "unat n < 2 ^ 32"
proof -
  have "uint n < 4294967296" using assms by simp
  then have "unat n < 4294967296" using uint_nat [of n] by linarith
  then show ?thesis by simp
qed

lemma read_copy_ok:
  assumes "unat n \<le> u_room"
  shows "chardev_read_copy dev beyond u_room n offset =
     (dev, offset + n, load_kernel (g_message dev) beyond (sint offset) (unat n), Inr n)"
  using assms by (simp add: chardev_read_copy_def copy_to_user_def min_absorb1)

lemma read_copy_fault:
  assumes small: "uint n < 2 ^ 32" and room: "u_room < unat n"
  shows "chardev_read_copy dev beyond u_room n offset =
     (dev, offset, load_kernel (g_message dev) beyond (sint offset) u_room, Inl EFAULT)"
proof -
  have "unat n < 2 ^ 32" using small by (rule unat_less_32)
  then have "unat n - u_room < 2 ^ 32" by simp
  then have "(of_nat (unat n - u_room) :: 32 word) = 0 \<longleftrightarrow> unat n - u_room = 0"
    by (rule err_zero_iff)
  then have nz: "(of_nat (unat n - u_room) :: 32 word) \<noteq> 0"
    using room by simp
  moreover have "min (unat n) u_room = u_room" using room by simp
  ultimately show ?thesis
    unfolding chardev_read_copy_def copy_to_user_def Let_def
    by (simp only: prod.case if_False)
qed

lemma length_load_kernel: "length (load_kernel m beyond off k) = k"
  by (simp add: load_kernel_def)

text \<open>\<open>chardev_read\<close> returns before the copy or runs it with the count \<open>copy_count\<close> gives.\<close>

lemma read_by_count:
  "chardev_read dev beyond u_room len offset =
     (case copy_count dev len offset of
        Some n \<Rightarrow> chardev_read_copy dev beyond u_room n offset
      | None \<Rightarrow> (dev, offset, [],
                 if g_message_size dev = offset then Inr 0 else Inl EINVAL))"
  by (simp add: chardev_read_def copy_count_def Let_def)

lemma copy_count_le:
  assumes "copy_count dev len offset = Some n"
  shows "n \<le> len"
  using assms by (auto simp: copy_count_def Let_def split: if_splits)

lemma read_never_writes: "fst (chardev_read dev beyond u_room len offset) = dev"
  by (simp add: chardev_read_def chardev_read_copy_def copy_to_user_def Let_def)

lemma read_error_keeps_offset:
  assumes "chardev_read dev beyond u_room len offset = (dev', offset', bs, Inl e)"
  shows "offset' = offset"
  using assms
  by (auto simp: chardev_read_def chardev_read_copy_def copy_to_user_def Let_def
      split: if_splits)

lemma copy_fails_iff: "snd (copy_to_user u_room m beyond off n) \<noteq> 0 \<longleftrightarrow> u_room < n"
  by (auto simp: copy_to_user_def Let_def min_def)

lemma copy_stores: "fst (copy_to_user u_room m beyond off n) = load_kernel m beyond off (min n u_room)"
  by (simp add: copy_to_user_def Let_def)

lemma read_fault:
  assumes small: "uint len < 2 ^ 32"
    and count: "copy_count dev len offset = Some n"
    and fails: "snd (copy_to_user u_room (g_message dev) beyond (sint offset) (unat n)) \<noteq> 0"
  shows "chardev_read dev beyond u_room len offset =
     (dev, offset, fst (copy_to_user u_room (g_message dev) beyond (sint offset) (unat n)),
      Inl EFAULT)"
proof -
  from fails have room: "u_room < unat n"
    using copy_fails_iff [of u_room "g_message dev" beyond "sint offset" "unat n"] by blast
  from count have "n \<le> len" by (rule copy_count_le)
  then have "uint n \<le> uint len" by (simp add: word_le_def)
  with small have n32: "uint n < 2 ^ 32" by simp
  have "chardev_read dev beyond u_room len offset = chardev_read_copy dev beyond u_room n offset"
    using count by (simp add: read_by_count)
  also have "\<dots> =
      (dev, offset, load_kernel (g_message dev) beyond (sint offset) u_room, Inl EFAULT)"
    using n32 room by (rule read_copy_fault)
  finally show ?thesis using room by (simp add: copy_stores min_absorb2)
qed

text \<open>
  Inside the array a load is a slice of \<open>g_message\<close>, and a read with
  \<open>0 \<le> offset \<le> g_message_size\<close> returns the \<open>min (g_message_size - offset) len\<close> bytes of
  the buffer from \<open>offset\<close> on, as long as they lie inside the array and the user's buffer
  has room for them. At \<open>offset = g_message_size\<close> every read returns the empty result.
\<close>

lemma load_inside:
  assumes "0 \<le> off" and "off + int k \<le> int (length m)"
  shows "load_kernel m beyond off k = take k (drop (nat off) m)"
proof (rule nth_equalityI)
  have k: "nat off + k \<le> length m" using assms by linarith
  then show "length (load_kernel m beyond off k) = length (take k (drop (nat off) m))"
    by (simp add: load_kernel_def)
  fix j assume "j < length (load_kernel m beyond off k)"
  then have j: "j < k" by (simp add: load_kernel_def)
  with k assms(1) have "nat (off + int j) = nat off + j" "off + int j < int (length m)"
    by linarith+
  with j assms(1) show "load_kernel m beyond off k ! j = take k (drop (nat off) m) ! j"
    by (simp add: load_kernel_def kernel_byte_def)
qed

lemma copy_count_inside:
  assumes off: "0 \<le> sint offset" "sint offset \<le> uint (g_message_size dev)"
    and n: "n = min (g_message_size dev - offset) len"
    and inb: "sint offset + uint n \<le> 1024"
    and ne: "g_message_size dev \<noteq> offset"
  shows "copy_count dev len offset = Some n"
proof (cases "len < g_message_size dev - offset")
  case True
  then have "len \<le> g_message_size dev - offset" by simp
  with n have "n = len" by (simp add: min_absorb2)
  with True ne show ?thesis by (simp add: copy_count_def Let_def)
next
  case False
  then have "g_message_size dev - offset \<le> len" by simp
  with n have nav: "n = g_message_size dev - offset" by (simp add: min_absorb1)
  with inb off(1) have "uint (g_message_size dev - offset) \<le> 1024" by simp
  then have "\<not> g_message_size dev - offset <s 0" by (simp add: sless_zero_iff)
  with False ne nav show ?thesis by (simp add: copy_count_def Let_def)
qed

lemma read_inside_array:
  assumes len: "length (g_message dev) = 1024"
    and off: "0 \<le> sint offset" "sint offset \<le> uint (g_message_size dev)"
    and n: "n = min (g_message_size dev - offset) len"
    and inb: "sint offset + uint n \<le> 1024"
    and room: "unat n \<le> u_room"
  shows "chardev_read dev beyond u_room len offset =
          (dev, offset + n, take (unat n) (drop (nat (sint offset)) (g_message dev)), Inr n)"
proof (cases "g_message_size dev = offset")
  case True
  with n show ?thesis by (simp add: chardev_read_def)
next
  case False
  have "sint offset + int (unat n) \<le> int (length (g_message dev))"
    using inb len by simp
  with off(1)
  have ld: "load_kernel (g_message dev) beyond (sint offset) (unat n) =
      take (unat n) (drop (nat (sint offset)) (g_message dev))"
    by (rule load_inside)
  from off n inb False have "copy_count dev len offset = Some n"
    by (rule copy_count_inside)
  then have "chardev_read dev beyond u_room len offset =
      chardev_read_copy dev beyond u_room n offset"
    by (simp add: read_by_count)
  also have "\<dots> =
      (dev, offset + n, load_kernel (g_message dev) beyond (sint offset) (unat n), Inr n)"
    using room by (rule read_copy_ok)
  finally show ?thesis using ld by simp
qed

lemma read_at_end:
  "chardev_read dev beyond u_room len (g_message_size dev) =
     (dev, g_message_size dev, [], Inr 0)"
  by (simp add: chardev_read_def)

lemma partial_read_example:
  "chardev_read dev_digits beyond 100 4 3 = (dev_digits, 7, [51, 52, 53, 54], Inr 4)"
  by (simp add: dev_digits_def chardev_read_def chardev_read_copy_def load_kernel_def
      kernel_byte_def copy_to_user_def word_less_alt nth_append upt_rec)

lemma over_state_reached:
  "chardev_calls chardev_initial
     [Open, Write (replicate 1000 65) 1000 0, Write (replicate 1000 66) 1000 1] =
   Some dev_over"
  by (simp add: chardev_initial_def chardev_open_def chardev_write_def copy_from_user_def
      store_g_message_def in_g_message_def sizeof_g_message_def word_less_alt dev_over_def)

text \<open>
  Claim C3. A read with \<open>0 \<le> offset \<le> length\<close> whose copy step succeeds does not always
  return bytes of the buffer. The two writes of claim C1 lead to \<open>dev_over\<close>, with length
  2000. There a read of 10 bytes at offset 1020, with room for 100 bytes in the user's
  buffer, succeeds, returns 10 and moves the offset to 1030; of the 10 bytes, the first four
  are the last four of \<open>g_message\<close> and the other six are the bytes that follow the array in
  kernel memory, whatever they are.
\<close>

theorem read_past_array:
  "chardev_calls chardev_initial
     [Open, Write (replicate 1000 65) 1000 0, Write (replicate 1000 66) 1000 1] =
     Some dev_over \<and>
   length (g_message dev_over) = 1024 \<and>
   0 \<le> sint (1020 :: loff_t) \<and> sint (1020 :: loff_t) \<le> uint (g_message_size dev_over) \<and>
   chardev_read dev_over beyond 100 10 1020 =
     (dev_over, 1030,
      [0, 0, 0, 0, beyond 1024, beyond 1025, beyond 1026, beyond 1027, beyond 1028,
       beyond 1029],
      Inr 10)"
proof -
  have l: "length (g_message dev_over) = 1024" by (simp add: dev_over_def)
  have a: "0 \<le> sint (1020 :: loff_t)" by simp
  have b: "sint (1020 :: loff_t) \<le> uint (g_message_size dev_over)"
    by (simp add: dev_over_def)
  have r: "chardev_read dev_over beyond 100 10 1020 =
     (dev_over, 1030,
      [0, 0, 0, 0, beyond 1024, beyond 1025, beyond 1026, beyond 1027, beyond 1028,
       beyond 1029],
      Inr 10)"
    by (simp add: dev_over_def chardev_read_def chardev_read_copy_def load_kernel_def
        kernel_byte_def copy_to_user_def word_less_alt nth_append upt_rec)
  show ?thesis by (intro conjI over_state_reached l a b r)
qed

text \<open>
  Claim C7. A read whose copy step fails returns \<open>EFAULT\<close> (the spec's CopyFault), leaves
  the caller's offset where it was and changes none of the globals. The read is any read
  that reaches the copy, with any offset and in any state: \<open>copy_count\<close> gives the count
  \<open>n\<close> it passes to \<open>copy_to_user\<close>, and the copy step fails when \<open>copy_to_user\<close> returns
  a count other than 0. The count asked for is below \<open>2 ^ 32\<close>, as every count the kernel
  hands to a read callback is. Moreover every read that returns an error, whatever the
  count, returns the globals and the offset it was given.
\<close>

theorem read_copy_fault_frame:
  "(uint len < 2 ^ 32 \<and> copy_count dev len offset = Some n \<and>
    snd (copy_to_user u_room (g_message dev) beyond (sint offset) (unat n)) \<noteq> 0
    \<longrightarrow> chardev_read dev beyond u_room len offset =
          (dev, offset,
           fst (copy_to_user u_room (g_message dev) beyond (sint offset) (unat n)),
           Inl EFAULT))
   \<and> (chardev_read dev1 beyond1 u_room1 len1 offset1 = (dev2, offset2, bs, Inl e)
        \<longrightarrow> dev2 = dev1 \<and> offset2 = offset1)"
proof (intro conjI impI)
  assume r: "chardev_read dev1 beyond1 u_room1 len1 offset1 = (dev2, offset2, bs, Inl e)"
  show "dev2 = dev1"
    using read_never_writes [of dev1 beyond1 u_room1 len1 offset1] r by simp
  show "offset2 = offset1" using r by (rule read_error_keeps_offset)
next
  assume "uint len < 2 ^ 32 \<and> copy_count dev len offset = Some n \<and>
    snd (copy_to_user u_room (g_message dev) beyond (sint offset) (unat n)) \<noteq> 0"
  then show "chardev_read dev beyond u_room len offset =
          (dev, offset,
           fst (copy_to_user u_room (g_message dev) beyond (sint offset) (unat n)),
           Inl EFAULT)"
    using read_fault [of len dev offset n u_room beyond] by blast
qed

theorem read_copy_fault_frame_witness:
  "uint (2000 :: size_t) < 2 ^ 32 \<and> copy_count dev_hello 2000 10 = Some 2000 \<and>
   snd (copy_to_user 5 (g_message dev_hello) (\<lambda>i. 0) (sint (10 :: loff_t))
          (unat (2000 :: size_t))) \<noteq> 0 \<and>
   chardev_read dev_hello (\<lambda>i. 0) 5 2000 10 = (dev_hello, 10, [0, 0, 0, 0, 0], Inl EFAULT)"
proof -
  have a: "uint (2000 :: size_t) < 2 ^ 32" by simp
  have b: "copy_count dev_hello 2000 10 = Some 2000"
    by (simp add: copy_count_def dev_hello_def word_less_alt)
  have c: "snd (copy_to_user 5 (g_message dev_hello) (\<lambda>i. 0) (sint (10 :: loff_t))
          (unat (2000 :: size_t))) \<noteq> 0"
    by (simp add: copy_to_user_def)
  have d: "fst (copy_to_user 5 (g_message dev_hello) (\<lambda>i. 0) (sint (10 :: loff_t))
          (unat (2000 :: size_t))) = [0, 0, 0, 0, 0]"
    by (simp add: copy_to_user_def load_kernel_def kernel_byte_def dev_hello_def nth_append
        upt_rec)
  show ?thesis
    using a b c d
      read_copy_fault_frame
        [of 2000 dev_hello 10 2000 5 "\<lambda>i. 0" dev_hello "\<lambda>i. 0" 5 2000 10 dev_hello 10
          "[0, 0, 0, 0, 0]" EFAULT]
    by simp
qed

text \<open>
  Claim C2. With five bytes stored, \<open>read(offset = 10, maxLength = 1)\<close> does not fail:
  \<open>len_msg = 5 - 10\<close> is negative, but the test \<open>len_msg > len\<close> comes first and compares
  as unsigned, so it holds, \<open>len_msg\<close> becomes 1 and the branch returning \<open>-EINVAL\<close> is
  skipped. The read copies \<open>g_message[10]\<close> to the user, returns 1 and moves the offset
  to 11.
\<close>

theorem read_beyond_content_returns_data:
  "chardev_read dev_hello beyond 1 1 10 = (dev_hello, 11, [0], Inr 1)"
  by (simp add: dev_hello_def chardev_read_def chardev_read_copy_def load_kernel_def
      kernel_byte_def copy_to_user_def word_less_alt nth_append)

text \<open>
  More generally no read with a count below \<open>2 ^ 63\<close> returns \<open>EINVAL\<close>: a negative
  \<open>len_msg\<close> is at least \<open>2 ^ 63\<close> as an unsigned number and so exceeds \<open>len\<close>.
\<close>

lemma einval_unreachable:
  assumes "uint len < 2 ^ 63"
  shows "snd (snd (snd (chardev_read dev beyond u_room len offset))) \<noteq> Inl EINVAL"
proof
  assume r: "snd (snd (snd (chardev_read dev beyond u_room len offset))) = Inl EINVAL"
  let ?avail = "g_message_size dev - offset"
  have nocopy: "snd (snd (snd (chardev_read_copy dev beyond u_room n offset))) \<noteq> Inl EINVAL" for n
    by (simp add: chardev_read_copy_def copy_to_user_def Let_def)
  from r nocopy have "\<not> len < ?avail" "?avail <s 0"
    by (auto simp: chardev_read_def Let_def split: if_splits)
  then have "uint ?avail \<le> uint len" "2 ^ 63 \<le> uint ?avail"
    by (simp_all add: word_less_alt sless_zero_iff)
  with assms show False by simp
qed

lemma einval_unreachable_witness:
  "uint (1 :: size_t) < 2 ^ 63 \<and>
   snd (snd (snd (chardev_read dev_hello (\<lambda>i. 0) 1 1 10))) \<noteq> Inl EINVAL"
proof -
  have a: "uint (1 :: size_t) < 2 ^ 63" by simp
  show ?thesis using a einval_unreachable [OF a, of dev_hello "\<lambda>i. 0" 1 10] by simp
qed

section \<open>Writes\<close>

lemma in_g_message_iff:
  "in_g_message (sint offset) (unat n) \<longleftrightarrow> 0 \<le> sint offset \<and> sint offset + uint n \<le> 1024"
  by (simp add: in_g_message_def sizeof_g_message_def)

text \<open>
  A write with a non-negative offset and \<open>offset + len \<le> 1024\<close> passes the capacity check
  and stores inside the array; what it returns depends on the copy alone.
\<close>

lemma write_inside:
  assumes off: "0 \<le> sint offset" and inb: "sint offset + uint len \<le> 1024"
  shows "chardev_write dev u_buffer len offset =
     (let bytes = take (unat len) u_buffer @ replicate (unat len - length u_buffer) 0;
          m = take (nat (sint offset)) (g_message dev) @ bytes @
              drop (nat (sint offset) + unat len) (g_message dev)
      in if length u_buffer < unat len
         then Some (dev\<lparr>g_message := m, g_message_size := 0\<rparr>, offset, Inl EFAULT)
         else Some (dev\<lparr>g_message := m,
                        g_message_size := (if offset = 0 then 0 else g_message_size dev) + len\<rparr>,
                    offset + len, Inr len))"
proof -
  have chk: "\<not> sizeof_g_message < len + offset"
    using off inb by (rule capacity_check_passes)
  have "in_g_message (sint offset) (unat len)"
    using off inb by (simp add: in_g_message_iff)
  then show ?thesis
    using chk
    by (auto simp: chardev_write_def copy_from_user_def store_g_message_def Let_def)
qed

text \<open>A write that returns a count passed the check, stored inside the array and read all
  \<open>len\<close> bytes from the user.\<close>

lemma write_ok_inside:
  assumes "chardev_write dev u_buffer len offset = Some (dev', offset', Inr n)"
  shows "0 \<le> sint offset \<and> sint offset + uint len \<le> 1024 \<and> unat len \<le> length u_buffer"
  using assms
  by (auto simp: chardev_write_def copy_from_user_def store_g_message_def Let_def
      in_g_message_def sizeof_g_message_def
      split: if_splits)

lemma stored_bytes:
  assumes "length m = 1024" and "0 \<le> sint offset" and "sint offset + uint len \<le> 1024"
    and "length bs = unat len"
  shows "take (unat len) (drop (nat (sint offset))
           (take (nat (sint offset)) m @ bs @ drop (nat (sint offset) + unat len) m)) = bs"
    and "take (nat (sint offset))
           (take (nat (sint offset)) m @ bs @ drop (nat (sint offset) + unat len) m) =
         take (nat (sint offset)) m"
proof -
  have "nat (sint offset) + unat len \<le> 1024"
    using assms(2,3) uint_nat [of len] by linarith
  with assms(1,4) show
    "take (unat len) (drop (nat (sint offset))
       (take (nat (sint offset)) m @ bs @ drop (nat (sint offset) + unat len) m)) = bs"
    "take (nat (sint offset))
       (take (nat (sint offset)) m @ bs @ drop (nat (sint offset) + unat len) m) =
     take (nat (sint offset)) m"
    by simp_all
qed

lemma append_size:
  fixes size len :: "64 word"
  assumes "0 \<le> sint size" and "sint size + uint len \<le> 1024"
  shows "unat (size + len) = nat (sint size) + unat len" and "unat size = nat (sint size)"
proof -
  from assms(1) have s: "sint size = uint size" "uint size < 2 ^ 63"
    using sint_64 [of size] uint_64_less [of size] by (simp_all split: if_splits)
  with assms(2) have "uint (size + len) = uint size + uint len"
    by (simp add: uint_add_64)
  then have "int (unat (size + len)) = int (unat size + unat len)"
    by simp
  then have "unat (size + len) = unat size + unat len" by (simp only: of_nat_eq_iff)
  moreover show "unat size = nat (sint size)" using s(1) by simp
  ultimately show "unat (size + len) = nat (sint size) + unat len" by simp
qed

lemma write_ok_result:
  assumes len: "length (g_message dev) = 1024"
    and w: "chardev_write dev u_buffer len offset = Some (dev', offset', Inr n)"
  shows "n = len" and "offset' = offset + len" and "unat len \<le> length u_buffer"
    and "g_message_size dev' = (if offset = 0 then len else g_message_size dev + len)"
    and "take (unat len) (drop (nat (sint offset)) (g_message dev')) = take (unat len) u_buffer"
    and "take (nat (sint offset)) (g_message dev') = take (nat (sint offset)) (g_message dev)"
    and "offset = 0 \<Longrightarrow> content dev' = take (unat len) u_buffer"
    and "offset = g_message_size dev \<Longrightarrow> content dev' = content dev @ take (unat len) u_buffer"
proof -
  from w have inb: "0 \<le> sint offset" "sint offset + uint len \<le> 1024"
    and data: "unat len \<le> length u_buffer"
    using write_ok_inside [OF w] by simp_all
  let ?data = "take (unat len) u_buffer"
  let ?m = "take (nat (sint offset)) (g_message dev) @ ?data @
            drop (nat (sint offset) + unat len) (g_message dev)"
  have ld: "length ?data = unat len" using data by simp
  have "chardev_write dev u_buffer len offset =
      Some (dev\<lparr>g_message := ?m,
                 g_message_size := (if offset = 0 then 0 else g_message_size dev) + len\<rparr>,
            offset + len, Inr len)"
    using data by (simp add: write_inside [OF inb] Let_def)
  with w have res: "n = len" "offset' = offset + len"
    "dev' = dev\<lparr>g_message := ?m,
                g_message_size := (if offset = 0 then 0 else g_message_size dev) + len\<rparr>"
    by auto
  show "n = len" "offset' = offset + len" "unat len \<le> length u_buffer"
    using res data by simp_all
  show "g_message_size dev' = (if offset = 0 then len else g_message_size dev + len)"
    using res(3) by simp
  show st: "take (unat len) (drop (nat (sint offset)) (g_message dev')) = ?data"
    using stored_bytes(1) [OF len inb ld] res(3) by simp
  show kept: "take (nat (sint offset)) (g_message dev') = take (nat (sint offset)) (g_message dev)"
    using stored_bytes(2) [OF len inb ld] res(3) by simp
  show "content dev' = ?data" if "offset = 0"
    using that st res(3) by (simp add: content_def)
  show "content dev' = content dev @ ?data" if eq: "offset = g_message_size dev"
  proof -
    have sz: "unat (g_message_size dev + len) = nat (sint offset) + unat len"
      "unat (g_message_size dev) = nat (sint offset)"
      using append_size [of "g_message_size dev" len] inb eq by simp_all
    have "nat (sint offset) + unat len \<le> 1024"
      using inb uint_nat [of len] by linarith
    then have "take (nat (sint offset) + unat len) ?m = take (nat (sint offset)) (g_message dev) @ ?data"
      using len ld by simp
    moreover have "g_message_size dev' = g_message_size dev + len"
      using res(3) eq by simp
    ultimately show ?thesis
      using res(3) sz by (simp add: content_def)
  qed
qed

text \<open>
  Claim C5. A write whose \<open>offset + len\<close> exceeds the capacity 1024 fails with \<open>EFBIG\<close>
  (the spec's TooLarge): nothing is copied, and the buffer, the length and the caller's
  offset are as before the call. The offset is any 64-bit \<open>loff_t\<close>, negative ones included;
  \<open>len\<close> is a count below \<open>2 ^ 63\<close>, as every byte count the kernel hands to a write
  callback is.
\<close>

theorem write_too_large:
  assumes "uint len < 2 ^ 63" and "1024 < sint offset + uint len"
  shows "chardev_write dev u_buffer len offset = Some (dev, offset, Inl EFBIG)"
  using capacity_check_fails [OF assms] by (simp add: chardev_write_def)

theorem write_too_large_witness:
  "uint (30 :: size_t) < 2 ^ 63 \<and> 1024 < sint (1000 :: loff_t) + uint (30 :: size_t) \<and>
   chardev_write dev_hello (replicate 30 65) 30 1000 = Some (dev_hello, 1000, Inl EFBIG)"
proof -
  have a: "uint (30 :: size_t) < 2 ^ 63" by simp
  have b: "1024 < sint (1000 :: loff_t) + uint (30 :: size_t)" by simp
  show ?thesis using a b write_too_large [OF a b, of dev_hello "replicate 30 65"] by simp
qed

text \<open>
  Claim C4. A successful write returns \<open>len\<close> and the new offset \<open>offset + len\<close>, and stores
  the \<open>len\<close> bytes of the user's data at \<open>offset\<close>, keeping the bytes before \<open>offset\<close>. At
  \<open>offset = 0\<close> the length is reset first, so it becomes \<open>len\<close> and the content is the data
  written. At a nonzero offset the length grows by \<open>len\<close> (in 64-bit arithmetic); when the
  write continues where the content ends (\<open>offset = length\<close>) the content is the old content
  followed by the data.
\<close>

theorem write_accounting:
  assumes "length (g_message dev) = 1024"
    and "chardev_write dev u_buffer len offset = Some (dev', offset', Inr n)"
  shows "n = len \<and> offset' = offset + len \<and> unat len \<le> length u_buffer \<and>
     g_message_size dev' = (if offset = 0 then len else g_message_size dev + len) \<and>
     take (unat len) (drop (nat (sint offset)) (g_message dev')) = take (unat len) u_buffer \<and>
     take (nat (sint offset)) (g_message dev') = take (nat (sint offset)) (g_message dev) \<and>
     (offset = 0 \<longrightarrow> content dev' = take (unat len) u_buffer) \<and>
     (offset = g_message_size dev \<longrightarrow> content dev' = content dev @ take (unat len) u_buffer)"
  using write_ok_result [OF assms] by blast

text \<open>The examples: \<open>AB\<close> written at 0, then \<open>XYZ\<close> at 0 or \<open>CD\<close> at 2.\<close>

lemma first_write_example:
  "chardev_calls chardev_initial [Open, Write [65, 66] 2 0] = Some dev_ab"
  by (simp add: chardev_initial_def dev_ab_def chardev_open_def chardev_write_def
      copy_from_user_def store_g_message_def in_g_message_def sizeof_g_message_def
      word_less_alt)

lemma write_restart_example:
  "chardev_write dev_ab [88, 89, 90] 3 0 =
     Some (dev_ab\<lparr>g_message := [88, 89, 90] @ replicate 1021 0, g_message_size := 3\<rparr>,
           3, Inr 3)"
  by (simp add: dev_ab_def chardev_write_def copy_from_user_def store_g_message_def
      in_g_message_def sizeof_g_message_def word_less_alt)

lemma write_chained_example:
  "chardev_write dev_ab [67, 68] 2 2 =
     Some (dev_ab\<lparr>g_message := [65, 66, 67, 68] @ replicate 1020 0, g_message_size := 4\<rparr>,
           4, Inr 2)"
  by (simp add: dev_ab_def chardev_write_def copy_from_user_def store_g_message_def
      in_g_message_def sizeof_g_message_def word_less_alt)

theorem write_accounting_witness:
  "length (g_message dev_ab) = 1024 \<and>
   chardev_write dev_ab [88, 89, 90] 3 0 =
     Some (dev_ab\<lparr>g_message := [88, 89, 90] @ replicate 1021 0, g_message_size := 3\<rparr>,
           3, Inr 3) \<and>
   content (dev_ab\<lparr>g_message := [88, 89, 90] @ replicate 1021 0, g_message_size := 3\<rparr>) =
     [88, 89, 90] \<and>
   chardev_write dev_ab [67, 68] 2 2 =
     Some (dev_ab\<lparr>g_message := [65, 66, 67, 68] @ replicate 1020 0, g_message_size := 4\<rparr>,
           4, Inr 2) \<and>
   content (dev_ab\<lparr>g_message := [65, 66, 67, 68] @ replicate 1020 0, g_message_size := 4\<rparr>) =
     [65, 66, 67, 68]"
proof -
  have l: "length (g_message dev_ab) = 1024" by (simp add: dev_ab_def)
  have c: "content dev_ab = [65, 66]" by (simp add: content_def dev_ab_def)
  have s: "g_message_size dev_ab = 2" by (simp add: dev_ab_def)
  show ?thesis
    using l c s write_accounting [OF l write_restart_example]
      write_accounting [OF l write_chained_example]
      write_restart_example write_chained_example
    by simp
qed

text \<open>
  Claim C6. A write that passes the capacity check (non-negative offset, \<open>offset + len\<close> at
  most 1024) and whose copy from the user fails (fewer than \<open>len\<close> bytes are readable) returns
  \<open>EFAULT\<close> (the spec's CopyFault) and sets the length to 0, whatever it was; the offset is
  not advanced and only \<open>g_message\<close> and \<open>g_message_size\<close> change.
\<close>

theorem write_copy_fault:
  assumes "0 \<le> sint offset" and "sint offset + uint len \<le> 1024"
    and "length u_buffer < unat len"
  shows "\<exists>m. chardev_write dev u_buffer len offset =
           Some (dev\<lparr>g_message := m, g_message_size := 0\<rparr>, offset, Inl EFAULT)"
proof -
  let ?m = "take (nat (sint offset)) (g_message dev) @
            (take (unat len) u_buffer @ replicate (unat len - length u_buffer) 0) @
            drop (nat (sint offset) + unat len) (g_message dev)"
  have "chardev_write dev u_buffer len offset =
          Some (dev\<lparr>g_message := ?m, g_message_size := 0\<rparr>, offset, Inl EFAULT)"
    using assms(3) by (simp add: write_inside [OF assms(1,2)] Let_def)
  then show ?thesis ..
qed

theorem write_copy_fault_witness:
  "0 \<le> sint (2 :: loff_t) \<and> sint (2 :: loff_t) + uint (3 :: size_t) \<le> 1024 \<and>
   length [67 :: byte] < unat (3 :: size_t) \<and>
   (\<exists>m. chardev_write dev_ab [67] 3 2 =
           Some (dev_ab\<lparr>g_message := m, g_message_size := 0\<rparr>, 2, Inl EFAULT))"
proof -
  have a: "0 \<le> sint (2 :: loff_t)" by simp
  have b: "sint (2 :: loff_t) + uint (3 :: size_t) \<le> 1024" by simp
  have c: "length [67 :: byte] < unat (3 :: size_t)" by simp
  show ?thesis using a b c write_copy_fault [OF a b c, of dev_ab] by simp
qed

text \<open>
  Claim C10. A write of zero bytes at offset 0 succeeds in every state: it returns 0, leaves
  the offset at 0, sets the length to 0 and leaves the bytes of \<open>g_message\<close> (and the other
  globals) as they were.
\<close>

theorem empty_write_at_zero:
  "chardev_write dev u_buffer 0 0 = Some (dev\<lparr>g_message_size := 0\<rparr>, 0, Inr 0)"
  by (simp add: chardev_write_def copy_from_user_def store_g_message_def in_g_message_def
      sizeof_g_message_def word_less_alt)

text \<open>
  Claim C1. The length can exceed the capacity. After 1000 bytes written at offset 0, a
  second write of 1000 bytes at offset 1 passes the capacity check (\<open>1 + 1000 \<le> 1024\<close>) and
  adds its count to \<open>g_message_size\<close>, which becomes 2000. A read of 2000 bytes at offset 0
  then succeeds and hands out 2000 bytes, of an array of 1024.
\<close>

theorem chained_writes_exceed_capacity:
  "map_option g_message_size
     (chardev_calls chardev_initial
        [Open, Write (replicate 1000 65) 1000 0, Write (replicate 1000 66) 1000 1]) =
     Some 2000 \<and>
   sizeof_g_message < 2000 \<and>
   map_option
     (\<lambda>dev. case chardev_read dev beyond 2000 2000 0 of
              (dev', offset', stored, ret) \<Rightarrow> (offset', length stored, ret))
     (chardev_calls chardev_initial
        [Open, Write (replicate 1000 65) 1000 0, Write (replicate 1000 66) 1000 1]) =
     Some (2000, 2000, Inr 2000)"
proof -
  have "chardev_read dev_over beyond 2000 2000 0 =
      (dev_over, 2000, load_kernel (g_message dev_over) beyond 0 2000, Inr 2000)"
    by (simp add: dev_over_def chardev_read_def chardev_read_copy_def copy_to_user_def
        word_less_alt word_sless_alt)
  moreover have "length (load_kernel (g_message dev_over) beyond 0 2000) = 2000"
    by (simp only: length_load_kernel)
  moreover have "g_message_size dev_over = 2000" by (simp add: dev_over_def)
  moreover have "sizeof_g_message < 2000" by (simp add: sizeof_less_iff)
  ultimately show ?thesis by (simp only: over_state_reached option.map prod.case simp_thms)
qed

text \<open>
  The length stays within the capacity when every write starts at offset 0 or where the
  content ends.
\<close>

lemma sequential_write_keeps_bound:
  assumes b: "uint (g_message_size dev) \<le> 1024"
    and w: "chardev_write dev u_buffer len offset = Some (dev', offset', r)"
    and s: "offset = 0 \<or> offset = g_message_size dev"
  shows "uint (g_message_size dev') \<le> 1024"
proof (cases "sizeof_g_message < len + offset")
  case True
  with w b show ?thesis by (simp add: chardev_write_def)
next
  case False
  with w have "in_g_message (sint offset) (unat len)"
    by (auto simp: chardev_write_def copy_from_user_def store_g_message_def Let_def
        split: if_splits)
  then have inb: "0 \<le> sint offset" "sint offset + uint len \<le> 1024"
    by (simp_all add: in_g_message_iff)
  show ?thesis
  proof (cases "length u_buffer < unat len")
    case True
    with w show ?thesis by (auto simp: write_inside [OF inb] Let_def)
  next
    case False
    with w have sz: "g_message_size dev' = (if offset = 0 then 0 else g_message_size dev) + len"
      by (auto simp: write_inside [OF inb] Let_def)
    show ?thesis
    proof (cases "offset = 0")
      case True
      with sz inb show ?thesis by simp
    next
      case False
      with s have eq: "offset = g_message_size dev" by simp
      from inb have "sint offset = uint offset" "uint offset < 2 ^ 63"
        using sint_64 [of offset] uint_64_less [of offset] by (simp_all split: if_splits)
      with inb have "uint (offset + len) = uint offset + uint len" "uint offset + uint len \<le> 1024"
        by (simp_all add: uint_add_64)
      with sz False eq show ?thesis by simp
    qed
  qed
qed

lemma sequential_write_keeps_bound_witness:
  "uint (g_message_size dev_ab) \<le> 1024 \<and>
   chardev_write dev_ab [67, 68] 2 2 =
     Some (dev_ab\<lparr>g_message := [65, 66, 67, 68] @ replicate 1020 0, g_message_size := 4\<rparr>,
           4, Inr 2) \<and>
   ((2 :: loff_t) = 0 \<or> 2 = g_message_size dev_ab) \<and>
   uint (g_message_size
     (dev_ab\<lparr>g_message := [65, 66, 67, 68] @ replicate 1020 0, g_message_size := 4\<rparr>)) \<le> 1024"
proof -
  have b: "uint (g_message_size dev_ab) \<le> 1024" by (simp add: dev_ab_def)
  have s: "(2 :: loff_t) = 0 \<or> 2 = g_message_size dev_ab" by (simp add: dev_ab_def)
  show ?thesis
    using b s write_chained_example
      sequential_write_keeps_bound [OF b write_chained_example s]
    by simp
qed

section \<open>Open and release\<close>

text \<open>What a write and any call do to the mutex and to \<open>g_number_open\<close>.\<close>

lemma write_keeps_lock:
  assumes "chardev_write dev u_buffer len offset = Some (dev', offset', r)"
  shows "mutex_chardev dev' = mutex_chardev dev" and "g_number_open dev' = g_number_open dev"
  using assms
  by (auto simp: chardev_write_def Let_def split: if_splits option.splits prod.splits)

lemma call_lock:
  assumes "chardev_call dev c = Some dev'"
  shows "mutex_chardev dev' =
     (case c of Open \<Rightarrow> True | Release \<Rightarrow> False
      | Read beyond u_room len offset \<Rightarrow> mutex_chardev dev
      | Write u_buffer len offset \<Rightarrow> mutex_chardev dev)"
proof (cases c)
  case Open
  with assms show ?thesis by (auto simp: chardev_open_def)
next
  case Release
  with assms show ?thesis by (auto simp: chardev_release_def)
next
  case (Read beyond u_room len offset)
  with assms show ?thesis by (auto simp: read_never_writes)
next
  case (Write u_buffer len offset)
  with assms show ?thesis by (auto dest: write_keeps_lock(1))
qed

lemma call_open_count:
  assumes "chardev_call dev c = Some dev'"
  shows "g_number_open dev' =
     (case c of
        Open \<Rightarrow> if mutex_chardev dev then g_number_open dev else g_number_open dev + 1
      | Release \<Rightarrow> g_number_open dev - 1
      | Read beyond u_room len offset \<Rightarrow> g_number_open dev
      | Write u_buffer len offset \<Rightarrow> g_number_open dev)"
proof (cases c)
  case Open
  with assms show ?thesis by (auto simp: chardev_open_def)
next
  case Release
  with assms show ?thesis by (auto simp: chardev_release_def)
next
  case (Read beyond u_room len offset)
  with assms show ?thesis by (auto simp: read_never_writes)
next
  case (Write u_buffer len offset)
  with assms show ?thesis by (auto dest: write_keeps_lock(2))
qed

text \<open>
  Claim C8. The exclusivity state machine. An open while the mutex is held fails with
  \<open>EBUSY\<close> (the spec's AlreadyOpen) and returns the globals as they were: still open, the
  counter not incremented. An open while it is free succeeds, takes the mutex and increments
  the counter. A release always succeeds and frees the mutex. No other call changes the
  mutex: after a read or a write, failed or not, it is as before.
\<close>

theorem exclusivity_state_machine:
  "(mutex_chardev dev1 \<longrightarrow> chardev_open dev1 = (dev1, Inl EBUSY)) \<and>
   (\<not> mutex_chardev dev2 \<longrightarrow>
      snd (chardev_open dev2) = Inr 0 \<and> mutex_chardev (fst (chardev_open dev2)) \<and>
      g_number_open (fst (chardev_open dev2)) = g_number_open dev2 + 1) \<and>
   snd (chardev_release dev3) = Inr 0 \<and> \<not> mutex_chardev (fst (chardev_release dev3)) \<and>
   (chardev_call dev c = Some dev' \<longrightarrow>
      mutex_chardev dev' =
        (case c of Open \<Rightarrow> True | Release \<Rightarrow> False
         | Read beyond u_room len offset \<Rightarrow> mutex_chardev dev
         | Write u_buffer len offset \<Rightarrow> mutex_chardev dev))"
  using call_lock [of dev c dev']
  by (simp add: chardev_open_def chardev_release_def)

theorem exclusivity_state_machine_witness:
  "mutex_chardev dev_hello \<and> chardev_open dev_hello = (dev_hello, Inl EBUSY) \<and>
   \<not> mutex_chardev chardev_initial \<and>
   snd (chardev_open chardev_initial) = Inr 0 \<and>
   mutex_chardev (fst (chardev_open chardev_initial)) \<and>
   g_number_open (fst (chardev_open chardev_initial)) = 1 \<and>
   \<not> mutex_chardev (fst (chardev_release dev_hello)) \<and>
   chardev_call dev_hello (Read (\<lambda>i. 0) 1 1 10) = Some dev_hello"
proof -
  have r: "chardev_call dev_hello (Read (\<lambda>i. 0) 1 1 10) = Some dev_hello"
    by (simp add: read_never_writes)
  have l: "mutex_chardev dev_hello" by (simp add: dev_hello_def)
  have u: "\<not> mutex_chardev chardev_initial" "g_number_open chardev_initial = 0"
    by (simp_all add: chardev_initial_def)
  show ?thesis
    using r l u
      exclusivity_state_machine
        [of dev_hello chardev_initial dev_hello dev_hello "Read (\<lambda>i. 0) 1 1 10" dev_hello]
    by simp
qed

text \<open>
  Claim C9. The counter is not monotone: the release after the first open takes it from
  1 back to 0.
\<close>

theorem open_count_decreases:
  "g_number_open (fst (chardev_release (fst (chardev_open chardev_initial)))) <
   g_number_open (fst (chardev_open chardev_initial))"
  by (simp add: chardev_initial_def chardev_open_def chardev_release_def)

text \<open>
  Under the calling protocol the counter is 1 while the mutex is held and 0 otherwise: each
  call keeps that, and so does each sequence of calls.
\<close>

lemma call_counts_holder:
  assumes inv: "counts_holder dev"
    and rel: "case c of Release \<Rightarrow> mutex_chardev dev | _ \<Rightarrow> True"
    and call: "chardev_call dev c = Some dev'"
  shows "counts_holder dev'"
proof (cases c)
  case Open
  with inv call show ?thesis by (auto simp: counts_holder_def chardev_open_def split: if_splits)
next
  case Release
  with inv rel call show ?thesis by (auto simp: counts_holder_def chardev_release_def)
next
  case (Read beyond u_room len offset)
  with inv call show ?thesis by (auto simp: read_never_writes)
next
  case (Write u_buffer len offset)
  with call obtain offset' r
    where "chardev_write dev u_buffer len offset = Some (dev', offset', r)"
    by auto
  then have "mutex_chardev dev' = mutex_chardev dev" "g_number_open dev' = g_number_open dev"
    by (rule write_keeps_lock)+
  with inv show ?thesis by (simp add: counts_holder_def)
qed

lemma calls_counts_holder:
  "counts_holder dev \<Longrightarrow> paired dev cs \<Longrightarrow> chardev_calls dev cs = Some dev' \<Longrightarrow>
   counts_holder dev'"
proof (induction cs arbitrary: dev)
  case Nil
  then show ?case by simp
next
  case (Cons c cs)
  from Cons.prems(3) obtain d where d: "chardev_call dev c = Some d"
    and rest: "chardev_calls d cs = Some dev'"
    by (auto split: option.splits)
  from Cons.prems(2) d have rel: "case c of Release \<Rightarrow> mutex_chardev dev | _ \<Rightarrow> True"
    and p: "paired d cs"
    by simp_all
  from Cons.prems(1) rel d have "counts_holder d" by (rule call_counts_holder)
  then show ?case using p rest by (rule Cons.IH)
qed

lemma initial_counts_holder: "counts_holder chardev_initial"
  by (simp add: counts_holder_def chardev_initial_def)

text \<open>
  Claim C9, amended. A successful open adds one to the counter and a release subtracts one
  (in 64-bit arithmetic); a failed open, a read and a write leave it as it is. After every
  sequence of calls from the initial state that keeps to the calling protocol (release is
  called only while the device is held), the counter is the number of sessions that hold
  the device: 1 while it is held, 0 otherwise. It is not the number of opens so far.
\<close>

theorem open_count_tracks_sessions:
  "(chardev_call dev c = Some dev' \<longrightarrow>
      g_number_open dev' =
        (case c of
           Open \<Rightarrow> if mutex_chardev dev then g_number_open dev else g_number_open dev + 1
         | Release \<Rightarrow> g_number_open dev - 1
         | Read beyond u_room len offset \<Rightarrow> g_number_open dev
         | Write u_buffer len offset \<Rightarrow> g_number_open dev)) \<and>
   (paired chardev_initial cs \<and> chardev_calls chardev_initial cs = Some dev1 \<longrightarrow>
      g_number_open dev1 = (if mutex_chardev dev1 then 1 else 0))"
proof (intro conjI impI)
  assume "chardev_call dev c = Some dev'"
  then show "g_number_open dev' =
        (case c of
           Open \<Rightarrow> if mutex_chardev dev then g_number_open dev else g_number_open dev + 1
         | Release \<Rightarrow> g_number_open dev - 1
         | Read beyond u_room len offset \<Rightarrow> g_number_open dev
         | Write u_buffer len offset \<Rightarrow> g_number_open dev)"
    by (rule call_open_count)
next
  assume "paired chardev_initial cs \<and> chardev_calls chardev_initial cs = Some dev1"
  then have "counts_holder dev1"
    using calls_counts_holder [OF initial_counts_holder, of cs dev1] by blast
  then show "g_number_open dev1 = (if mutex_chardev dev1 then 1 else 0)"
    by (simp only: counts_holder_def)
qed

theorem open_count_tracks_sessions_witness:
  "chardev_call dev_hello Release = Some (fst (chardev_release dev_hello)) \<and>
   g_number_open dev_hello = 1 \<and>
   g_number_open (fst (chardev_release dev_hello)) = 0 \<and>
   paired chardev_initial [Open, Open, Release, Open, Write [65, 66] 2 0] \<and>
   chardev_calls chardev_initial [Open, Open, Release, Open, Write [65, 66] 2 0] =
     Some dev_ab \<and>
   g_number_open dev_ab = 1 \<and> mutex_chardev dev_ab"
proof -
  have c: "chardev_call dev_hello Release = Some (fst (chardev_release dev_hello))" by simp
  have p: "paired chardev_initial [Open, Open, Release, Open, Write [65, 66] 2 0]"
    by (simp add: chardev_initial_def chardev_open_def chardev_release_def
        chardev_write_def copy_from_user_def store_g_message_def in_g_message_def
        sizeof_g_message_def word_less_alt)
  have r: "chardev_calls chardev_initial [Open, Open, Release, Open, Write [65, 66] 2 0] =
     Some dev_ab"
    by (simp add: chardev_initial_def dev_ab_def chardev_open_def chardev_release_def
        chardev_write_def copy_from_user_def store_g_message_def in_g_message_def
        sizeof_g_message_def word_less_alt)
  have m: "mutex_chardev dev_ab" by (simp add: dev_ab_def)
  show ?thesis
    using c p r m
      open_count_tracks_sessions
        [of dev_hello Release "fst (chardev_release dev_hello)"
          "[Open, Open, Release, Open, Write [65, 66] 2 0]" dev_ab]
    by (simp add: dev_hello_def)
qed

section \<open>The array keeps its size\<close>

text \<open>
  Theorems above take a state whose \<open>g_message\<close> has its 1024 bytes. The module starts
  in such a state and every call that stores inside the array leads to one.
\<close>

lemma initial_array: "length (g_message chardev_initial) = 1024"
  by (simp add: chardev_initial_def)

lemma write_keeps_array:
  assumes len: "length (g_message dev) = 1024"
    and w: "chardev_write dev u_buffer len offset = Some (dev', offset', r)"
  shows "length (g_message dev') = 1024"
proof (cases "sizeof_g_message < len + offset")
  case True
  with w len show ?thesis by (simp add: chardev_write_def)
next
  case False
  with w have "in_g_message (sint offset) (unat len)"
    by (auto simp: chardev_write_def copy_from_user_def store_g_message_def Let_def
        split: if_splits)
  then have inb: "0 \<le> sint offset" "sint offset + uint len \<le> 1024"
    by (simp_all add: in_g_message_iff)
  then have n: "nat (sint offset) + unat len \<le> 1024"
    using uint_nat [of len] by linarith
  from w have "g_message dev' =
      take (nat (sint offset)) (g_message dev) @
      (take (unat len) u_buffer @ replicate (unat len - length u_buffer) 0) @
      drop (nat (sint offset) + unat len) (g_message dev)"
    by (auto simp: write_inside [OF inb] Let_def split: if_splits)
  with len n show ?thesis by auto
qed

lemma call_keeps_array:
  assumes "length (g_message dev) = 1024" and "chardev_call dev c = Some dev'"
  shows "length (g_message dev') = 1024"
proof (cases c)
  case Open
  with assms show ?thesis by (auto simp: chardev_open_def split: if_splits)
next
  case Release
  with assms show ?thesis by (auto simp: chardev_release_def)
next
  case (Read beyond u_room len offset)
  with assms show ?thesis by (auto simp: read_never_writes)
next
  case (Write u_buffer len offset)
  with assms show ?thesis by (auto dest: write_keeps_array)
qed

lemma calls_keep_array:
  "length (g_message dev) = 1024 \<Longrightarrow> chardev_calls dev cs = Some dev' \<Longrightarrow>
   length (g_message dev') = 1024"
proof (induction cs arbitrary: dev)
  case Nil
  then show ?case by simp
next
  case (Cons c cs)
  then show ?case by (auto split: option.splits dest: call_keeps_array)
qed

end
